theory Spec2Isabelle
  imports Main
begin

section \<open>Exceptions\<close>

text \<open>
  The failures the modelled code can raise: \<open>ValueError\<close> is what \<^verbatim>\<open>list.remove\<close>
  raises for an absent element, \<open>IndexError\<close> is what indexing a tuple out of range
  raises, \<open>AttributeError\<close> is what reading an attribute that was never assigned raises,
  and \<open>Raised x\<close> is any other exception with payload \<open>x\<close>, raised by code outside
  this module (an observer, a decorated callable, a \<^verbatim>\<open>__repr__\<close>).
\<close>

datatype 'x exn = ValueError | IndexError | AttributeError | Raised 'x

section \<open>Rendering of Python values\<close>

text \<open>\<^verbatim>\<open>str\<close> of a bool, of a non-negative int and of an optional string.\<close>

definition str_bool :: "bool \<Rightarrow> string" where
  "str_bool b = (if b then ''True'' else ''False'')"

definition digit_char :: "nat \<Rightarrow> char" where
  "digit_char d = ''0123456789'' ! d"

fun str_nat :: "nat \<Rightarrow> string" where
  "str_nat n = (if n < 10 then [digit_char n] else str_nat (n div 10) @ [digit_char (n mod 10)])"

declare str_nat.simps [simp del]

definition str_opt :: "string option \<Rightarrow> string" where
  "str_opt v = (case v of None \<Rightarrow> ''None'' | Some t \<Rightarrow> t)"

section \<open>Image (model.py)\<close>

text \<open>
  Of the numpy array an \<open>Image\<close> wraps, the methods read \<^verbatim>\<open>shape\<close> (a tuple of
  non-negative ints) and \<^verbatim>\<open>dtype.name\<close>; the elements are carried along untouched.
\<close>

record 'a ndarray =
  shape :: "nat list"
  dtype_name :: string
  elements :: "'a list"

record 'a Image =
  data :: "'a ndarray"
  bayer_pattern :: "string option"
  origin :: string

definition Image_init :: "'a ndarray \<Rightarrow> 'a Image" where
  "Image_init d = \<lparr>data = d, bayer_pattern = None, origin = ''UNDEFINED''\<rparr>"

definition set_data :: "'a ndarray \<Rightarrow> 'a Image \<Rightarrow> 'a Image" where
  "set_data d img = img\<lparr>data := d\<rparr>"

definition set_origin :: "string \<Rightarrow> 'a Image \<Rightarrow> 'a Image" where
  "set_origin orig img = img\<lparr>origin := orig\<rparr>"

definition set_bayer_pattern :: "string option \<Rightarrow> 'a Image \<Rightarrow> 'a Image" where
  "set_bayer_pattern bp img = img\<lparr>bayer_pattern := bp\<rparr>"

definition needs_debayering :: "'a Image \<Rightarrow> bool" where
  "needs_debayering img = (bayer_pattern img \<noteq> None)"

definition is_color :: "'a Image \<Rightarrow> bool" where
  "is_color img = (length (shape (data img)) > 2)"

text \<open>Tuple indexing with a non-negative index: out of range raises \<open>IndexError\<close>.\<close>

definition tuple_get :: "'b list \<Rightarrow> nat \<Rightarrow> 'x exn + 'b" where
  "tuple_get xs i = (if i < length xs then Inr (xs ! i) else Inl IndexError)"

text \<open>
  \<^verbatim>\<open>__repr__\<close>: the f-string, piece by piece and in the source's order. The line
  labelled \<^verbatim>\<open>Width * Height\<close> prints \<^verbatim>\<open>shape[0]\<close> first and \<^verbatim>\<open>shape[1]\<close> second.
\<close>

definition newline :: string where
  "newline = [CHR 0x0A]"

definition Image_repr :: "'a Image \<Rightarrow> 'x exn + string" where
  "Image_repr img =
     (case tuple_get (shape (data img)) 0 of
        Inl e \<Rightarrow> Inl e
      | Inr s0 \<Rightarrow>
          (case tuple_get (shape (data img)) 1 of
             Inl e \<Rightarrow> Inl e
           | Inr s1 \<Rightarrow>
               Inr (''Image('' @ newline
                 @ ''Color = '' @ str_bool (is_color img) @ '','' @ newline
                 @ ''Needs Debayer = '' @ str_bool (needs_debayering img) @ '','' @ newline
                 @ ''Bayer Pattern = '' @ str_opt (bayer_pattern img) @ '','' @ newline
                 @ ''Width * Height = '' @ str_nat s0 @ '' * '' @ str_nat s1 @ '','' @ newline
                 @ ''Data type = '' @ dtype_name (data img) @ '','' @ newline
                 @ ''Origin = '' @ origin img @ '')'')))"

section \<open>The log decorator (code_utilities.py)\<close>

text \<open>
  The state the modelled code runs in. \<open>STORE\<close> is the module's \<open>DataStore\<close> object;
  \<open>debug_log\<close> holds the records handed to \<^verbatim>\<open>logger.debug\<close> by the decorator, oldest
  first; \<open>calls\<close> is the trace of the invocations of \<^verbatim>\<open>update_according_to_app_state\<close>,
  each with the observer and with the exception it raised, if any; \<open>env\<close> is everything
  the observers own.
\<close>

record 'o DataStore =
  observers :: "'o list"
  scan_in_progress :: bool
  web_server_is_running :: bool

text \<open>
  \<open>Called name args kwargs\<close> is the record
  \<^verbatim>\<open>{name}() called with : {str(args)} - {str(kwargs)}\<close>, and \<open>Returned name result\<close> is
  \<^verbatim>\<open>{name}() returned {str(result)} in {elapsed} ms\<close>. The elapsed time is read from the
  wall clock and is not part of the record here.
\<close>

datatype log_record = Called string string string | Returned string string

record ('o, 'env, 'x) state =
  STORE :: "'o DataStore"
  debug_log :: "log_record list"
  calls :: "('o \<times> 'x exn option) list"
  env :: 'env

type_synonym ('o, 'env, 'x, 'r) prog =
  "('o, 'env, 'x) state \<Rightarrow> ('x exn + 'r) \<times> ('o, 'env, 'x) state"

definition logger_debug :: "log_record \<Rightarrow> ('o, 'env, 'x) state \<Rightarrow> ('o, 'env, 'x) state" where
  "logger_debug r s = s\<lparr>debug_log := debug_log s @ [r]\<rparr>"

text \<open>
  \<^verbatim>\<open>log(func)\<close> returns \<^verbatim>\<open>wrapped\<close>. The qualified name of \<open>func\<close> and the renderings
  \<^verbatim>\<open>str(args)\<close>, \<^verbatim>\<open>str(kwargs)\<close> and \<^verbatim>\<open>str(result)\<close> are parameters. A rendering runs
  the \<^verbatim>\<open>__repr__\<close> or \<^verbatim>\<open>__str__\<close> of the objects it prints and can raise: the f-string
  of the first record is evaluated before \<open>func\<close> is called, the one of the second record
  after \<open>func\<close> returned, each from left to right. Nothing is caught: a failure of a
  rendering or of \<open>func\<close> leaves \<^verbatim>\<open>wrapped\<close> where it occurs, in the state reached
  there.
\<close>

definition log ::
  "string \<Rightarrow> ('a \<Rightarrow> 'x exn + string) \<Rightarrow> ('a \<Rightarrow> 'x exn + string) \<Rightarrow> ('r \<Rightarrow> 'x exn + string) \<Rightarrow>
   ('a \<Rightarrow> ('o, 'env, 'x, 'r) prog) \<Rightarrow> 'a \<Rightarrow> ('o, 'env, 'x, 'r) prog" where
  "log function_name str_args str_kwargs str_result func a s =
     (case str_args a of
        Inl e \<Rightarrow> (Inl e, s)
      | Inr args_text \<Rightarrow>
          (case str_kwargs a of
             Inl e \<Rightarrow> (Inl e, s)
           | Inr kwargs_text \<Rightarrow>
               (case func a (logger_debug (Called function_name args_text kwargs_text) s) of
                  (Inl e, s') \<Rightarrow> (Inl e, s')
                | (Inr result, s') \<Rightarrow>
                    (case str_result result of
                       Inl e \<Rightarrow> (Inl e, s')
                     | Inr result_text \<Rightarrow>
                         (Inr result, logger_debug (Returned function_name result_text) s')))))"

section \<open>DataStore (model.py)\<close>

text \<open>
  What the objects outside this module bring: the observers' method
  \<^verbatim>\<open>update_according_to_app_state\<close>, which reads the store, changes the observers' own
  state and returns normally (\<open>None\<close>) or raises (\<open>Some e\<close>); the \<^verbatim>\<open>repr\<close> of an
  observer, which the decorator prints and which can raise; and the \<^verbatim>\<open>repr\<close> of the
  store object, which is \<^verbatim>\<open>object.__repr__\<close>, as \<open>DataStore\<close> defines none. An observer
  does not call back into the store's mutators while it is being notified.
\<close>

record ('o, 'env, 'x) runtime =
  update_according_to_app_state :: "'o \<Rightarrow> 'o DataStore \<Rightarrow> 'env \<Rightarrow> 'x exn option \<times> 'env"
  repr_observer :: "'o \<Rightarrow> 'x exn + string"
  repr_store :: string

fun join :: "string \<Rightarrow> string list \<Rightarrow> string" where
  "join sep [] = []"
| "join sep [x] = x"
| "join sep (x # y # ys) = x @ sep @ join sep (y # ys)"

text \<open>
  \<^verbatim>\<open>str\<close> of a tuple, given the \<^verbatim>\<open>repr\<close> of its items; of a bool and of \<^verbatim>\<open>None\<close>, which
  cannot raise; of the empty \<^verbatim>\<open>kwargs\<close>; of the arguments \<^verbatim>\<open>(self,)\<close>,
  \<^verbatim>\<open>(self, flag)\<close> and \<^verbatim>\<open>(self, observer)\<close> of the methods.
\<close>

definition str_tuple :: "string list \<Rightarrow> string" where
  "str_tuple rs = (case rs of [r] \<Rightarrow> ''('' @ r @ '',)'' | _ \<Rightarrow> ''('' @ join '', '' rs @ '')'')"

definition str_no_kwargs :: "'a \<Rightarrow> 'x exn + string" where
  "str_no_kwargs a = Inr ''{}''"

definition str_None :: "unit \<Rightarrow> 'x exn + string" where
  "str_None u = Inr ''None''"

definition str_result_bool :: "bool \<Rightarrow> 'x exn + string" where
  "str_result_bool b = Inr (str_bool b)"

definition str_self :: "('o, 'env, 'x) runtime \<Rightarrow> unit \<Rightarrow> 'x exn + string" where
  "str_self rt u = Inr (str_tuple [repr_store rt])"

definition str_self_flag :: "('o, 'env, 'x) runtime \<Rightarrow> bool \<Rightarrow> 'x exn + string" where
  "str_self_flag rt b = Inr (str_tuple [repr_store rt, str_bool b])"

definition str_self_observer :: "('o, 'env, 'x) runtime \<Rightarrow> 'o \<Rightarrow> 'x exn + string" where
  "str_self_observer rt observer =
     (case repr_observer rt observer of
        Inl e \<Rightarrow> Inl e
      | Inr r \<Rightarrow> Inr (str_tuple [repr_store rt, r]))"

definition DataStore_init :: "'o DataStore" where
  "DataStore_init = \<lparr>observers = [], scan_in_progress = False, web_server_is_running = False\<rparr>"

text \<open>The loop of \<^verbatim>\<open>_notify_observers\<close>: the first exception ends it.\<close>

fun notify_loop ::
  "('o, 'env, 'x) runtime \<Rightarrow> 'o list \<Rightarrow> ('o, 'env, 'x, unit) prog" where
  "notify_loop rt [] s = (Inr (), s)"
| "notify_loop rt (observer # rest) s =
     (case update_according_to_app_state rt observer (STORE s) (env s) of
        (Some e, env') \<Rightarrow> (Inl e, s\<lparr>calls := calls s @ [(observer, Some e)], env := env'\<rparr>)
      | (None, env') \<Rightarrow>
          notify_loop rt rest (s\<lparr>calls := calls s @ [(observer, None)], env := env'\<rparr>))"

definition notify_observers :: "('o, 'env, 'x) runtime \<Rightarrow> unit \<Rightarrow> ('o, 'env, 'x, unit) prog" where
  "notify_observers rt =
     log ''DataStore._notify_observers'' (str_self rt) str_no_kwargs str_None
       (\<lambda>u s. notify_loop rt (observers (STORE s)) s)"

definition get_web_server_is_running ::
  "('o, 'env, 'x) runtime \<Rightarrow> unit \<Rightarrow> ('o, 'env, 'x, bool) prog" where
  "get_web_server_is_running rt =
     log ''DataStore.web_server_is_running'' (str_self rt) str_no_kwargs str_result_bool
       (\<lambda>u s. (Inr (web_server_is_running (STORE s)), s))"

definition set_web_server_is_running ::
  "('o, 'env, 'x) runtime \<Rightarrow> bool \<Rightarrow> ('o, 'env, 'x, unit) prog" where
  "set_web_server_is_running rt =
     log ''DataStore.web_server_is_running'' (str_self_flag rt) str_no_kwargs str_None
       (\<lambda>running s.
          notify_observers rt () (s\<lparr>STORE := (STORE s)\<lparr>web_server_is_running := running\<rparr>\<rparr>))"

definition get_scan_in_progress ::
  "('o, 'env, 'x) runtime \<Rightarrow> unit \<Rightarrow> ('o, 'env, 'x, bool) prog" where
  "get_scan_in_progress rt =
     log ''DataStore.scan_in_progress'' (str_self rt) str_no_kwargs str_result_bool
       (\<lambda>u s. (Inr (scan_in_progress (STORE s)), s))"

definition set_scan_in_progress ::
  "('o, 'env, 'x) runtime \<Rightarrow> bool \<Rightarrow> ('o, 'env, 'x, unit) prog" where
  "set_scan_in_progress rt =
     log ''DataStore.scan_in_progress'' (str_self_flag rt) str_no_kwargs str_None
       (\<lambda>in_progress s.
          notify_observers rt () (s\<lparr>STORE := (STORE s)\<lparr>scan_in_progress := in_progress\<rparr>\<rparr>))"

definition add_observer :: "('o, 'env, 'x) runtime \<Rightarrow> 'o \<Rightarrow> ('o, 'env, 'x, unit) prog" where
  "add_observer rt =
     log ''DataStore.add_observer'' (str_self_observer rt) str_no_kwargs str_None
       (\<lambda>observer s. (Inr (), s\<lparr>STORE := (STORE s)\<lparr>observers := observers (STORE s) @ [observer]\<rparr>\<rparr>))"

text \<open>
  \<^verbatim>\<open>list.remove(x)\<close>: drops the first item equal to \<open>x\<close>; \<open>None\<close> stands for the
  \<^verbatim>\<open>ValueError\<close> of a list without such an item.
\<close>

fun list_remove :: "'b \<Rightarrow> 'b list \<Rightarrow> 'b list option" where
  "list_remove x [] = None"
| "list_remove x (y # ys) =
     (if y = x then Some ys else map_option ((#) y) (list_remove x ys))"

definition remove_observer :: "('o, 'env, 'x) runtime \<Rightarrow> 'o \<Rightarrow> ('o, 'env, 'x, unit) prog" where
  "remove_observer rt =
     log ''DataStore.remove_observer'' (str_self_observer rt) str_no_kwargs str_None
       (\<lambda>observer s.
          (case list_remove observer (observers (STORE s)) of
             None \<Rightarrow> (Inl ValueError, s)
           | Some xs \<Rightarrow> (Inr (), s\<lparr>STORE := (STORE s)\<lparr>observers := xs\<rparr>\<rparr>)))"

definition module_state :: "'env \<Rightarrow> ('o, 'env, 'x) state" where
  "module_state e = \<lparr>STORE = DataStore_init, debug_log = [], calls = [], env = e\<rparr>"

section \<open>Vocabulary for the properties of DataStore\<close>

text \<open>
  The two flags by name: a flag set by name, the qualified name of the property, the value
  of a flag, and the store with a flag overwritten.
\<close>

datatype flag = Scan_in_progress | Web_server_is_running

definition set_flag :: "('o, 'env, 'x) runtime \<Rightarrow> flag \<Rightarrow> bool \<Rightarrow> ('o, 'env, 'x, unit) prog" where
  "set_flag rt f v =
     (case f of
        Scan_in_progress \<Rightarrow> set_scan_in_progress rt v
      | Web_server_is_running \<Rightarrow> set_web_server_is_running rt v)"

definition flag_name :: "flag \<Rightarrow> string" where
  "flag_name f =
     (case f of
        Scan_in_progress \<Rightarrow> ''DataStore.scan_in_progress''
      | Web_server_is_running \<Rightarrow> ''DataStore.web_server_is_running'')"

definition flag_value :: "flag \<Rightarrow> 'o DataStore \<Rightarrow> bool" where
  "flag_value f st =
     (case f of
        Scan_in_progress \<Rightarrow> scan_in_progress st
      | Web_server_is_running \<Rightarrow> web_server_is_running st)"

definition with_flag :: "flag \<Rightarrow> bool \<Rightarrow> 'o DataStore \<Rightarrow> 'o DataStore" where
  "with_flag f v st =
     (case f of
        Scan_in_progress \<Rightarrow> st\<lparr>scan_in_progress := v\<rparr>
      | Web_server_is_running \<Rightarrow> st\<lparr>web_server_is_running := v\<rparr>)"

text \<open>
  What the observers of a list do when their updates are run in turn on a store \<open>st\<close>, each
  in the state of the observers that the one before left: \<open>all_return\<close> says that every
  update returns normally, and \<open>env_after\<close> is the state of the observers after the last
  one.
\<close>

fun all_return ::
  "('o, 'env, 'x) runtime \<Rightarrow> 'o DataStore \<Rightarrow> 'o list \<Rightarrow> 'env \<Rightarrow> bool" where
  "all_return rt st [] en = True"
| "all_return rt st (ob # obs) en =
     (fst (update_according_to_app_state rt ob st en) = None
      \<and> all_return rt st obs (snd (update_according_to_app_state rt ob st en)))"

fun env_after ::
  "('o, 'env, 'x) runtime \<Rightarrow> 'o DataStore \<Rightarrow> 'o list \<Rightarrow> 'env \<Rightarrow> 'env" where
  "env_after rt st [] en = en"
| "env_after rt st (ob # obs) en =
     env_after rt st obs (snd (update_according_to_app_state rt ob st en))"

text \<open>
  The operations a caller can make on the store, and a run of them made one after the
  other by callers that go on after a failure.
\<close>

datatype 'o operation =
    Get_flag flag
  | Set_flag flag bool
  | Add_observer 'o
  | Remove_observer 'o

definition do_operation ::
  "('o, 'env, 'x) runtime \<Rightarrow> 'o operation \<Rightarrow> ('o, 'env, 'x) state \<Rightarrow> ('o, 'env, 'x) state" where
  "do_operation rt operation s =
     (case operation of
        Get_flag Scan_in_progress \<Rightarrow> snd (get_scan_in_progress rt () s)
      | Get_flag Web_server_is_running \<Rightarrow> snd (get_web_server_is_running rt () s)
      | Set_flag f v \<Rightarrow> snd (set_flag rt f v s)
      | Add_observer ob \<Rightarrow> snd (add_observer rt ob s)
      | Remove_observer ob \<Rightarrow> snd (remove_observer rt ob s))"

fun do_operations ::
  "('o, 'env, 'x) runtime \<Rightarrow> 'o operation list \<Rightarrow> ('o, 'env, 'x) state \<Rightarrow> ('o, 'env, 'x) state" where
  "do_operations rt [] s = s"
| "do_operations rt (operation # later) s = do_operations rt later (do_operation rt operation s)"


section \<open>Floats\<close>

text \<open>
  A Python float is an IEEE 754 binary64 value. \<open>Finite s m e\<close> is the number
  \<open>m * 2 ^ e\<close>, negative when \<open>s\<close> holds (so that \<open>Finite True 0 e\<close> is the negative
  zero); every finite float can be written so with \<open>m < 2 ^ 53\<close> and \<open>- 1074 \<le> e\<close>.
  \<open>Infinity s\<close> is the infinity of sign \<open>s\<close>.
\<close>

datatype double = Finite bool nat int | Infinity bool | NaN

text \<open>The number of binary digits of \<open>m\<close>.\<close>

fun bitlen :: "nat \<Rightarrow> nat" where
  "bitlen m = (if m = 0 then 0 else Suc (bitlen (m div 2)))"

declare bitlen.simps [simp del]

text \<open>\<open>m / 2 ^ k\<close> rounded to the nearest integer, a tie going to the even one.\<close>

definition shift_round_even :: "nat \<Rightarrow> nat \<Rightarrow> nat" where
  "shift_round_even m k =
     (let q = m div 2 ^ k; r = m mod 2 ^ k
      in if 2 * r < 2 ^ k then q
         else if 2 ^ k < 2 * r then q + 1
         else if even q then q else q + 1)"

text \<open>
  The float nearest to \<open>m * 2 ^ e\<close> (round to nearest, ties to even): the digits beyond
  the 53rd, and those below \<open>2 ^ - 1074\<close>, are rounded away, and a result of \<open>2 ^ 1024\<close> or
  more overflows to the infinity.
\<close>

definition round_double :: "bool \<Rightarrow> nat \<Rightarrow> int \<Rightarrow> double" where
  "round_double s m e =
     (let k = max (int (bitlen m) - 53) (- 1074 - e);
          m' = (if 0 < k then shift_round_even m (nat k) else m);
          e' = (if 0 < k then e + k else e)
      in if m' \<noteq> 0 \<and> 1024 < int (bitlen m') + e' then Infinity s else Finite s m' e')"

text \<open>The float operations \<^verbatim>\<open>x - y\<close> and \<^verbatim>\<open>x * y\<close>.\<close>

definition signed :: "bool \<Rightarrow> nat \<Rightarrow> int" where
  "signed s m = (if s then - int m else int m)"

fun fsub :: "double \<Rightarrow> double \<Rightarrow> double" where
  "fsub NaN y = NaN"
| "fsub x NaN = NaN"
| "fsub (Infinity s) (Infinity t) = (if s = t then NaN else Infinity s)"
| "fsub (Infinity s) (Finite t m e) = Infinity s"
| "fsub (Finite s m e) (Infinity t) = Infinity (\<not> t)"
| "fsub (Finite s1 m1 e1) (Finite s2 m2 e2) =
     (let e = min e1 e2;
          d = signed s1 m1 * 2 ^ nat (e1 - e) - signed s2 m2 * 2 ^ nat (e2 - e)
      in if d = 0 then Finite (m1 = 0 \<and> m2 = 0 \<and> s1 \<and> \<not> s2) 0 0
         else round_double (d < 0) (nat \<bar>d\<bar>) e)"

fun fmul :: "double \<Rightarrow> double \<Rightarrow> double" where
  "fmul NaN y = NaN"
| "fmul x NaN = NaN"
| "fmul (Infinity s) (Infinity t) = Infinity (s \<noteq> t)"
| "fmul (Infinity s) (Finite t m e) = (if m = 0 then NaN else Infinity (s \<noteq> t))"
| "fmul (Finite s m e) (Infinity t) = (if m = 0 then NaN else Infinity (s \<noteq> t))"
| "fmul (Finite s1 m1 e1) (Finite s2 m2 e2) = round_double (s1 \<noteq> s2) (m1 * m2) (e1 + e2)"

text \<open>
  \<^verbatim>\<open>"%0.3f" % x\<close>: the sign, the integer part, a point and three decimals, of the exact
  value of the float rounded to the nearest thousandth, a tie going to the even one.
  \<open>thousandths m e\<close> is that number of thousandths for \<open>m * 2 ^ e\<close>.
\<close>

definition thousandths :: "nat \<Rightarrow> int \<Rightarrow> nat" where
  "thousandths m e =
     (if 0 \<le> e then m * 1000 * 2 ^ nat e else shift_round_even (m * 1000) (nat (- e)))"

definition three_decimals :: "nat \<Rightarrow> string" where
  "three_decimals n =
     str_nat (n div 1000) @ ''.''
       @ [digit_char (n div 100 mod 10), digit_char (n div 10 mod 10), digit_char (n mod 10)]"

definition str_sign :: "bool \<Rightarrow> string" where
  "str_sign s = (if s then ''-'' else [])"

fun format_0_3f :: "double \<Rightarrow> string" where
  "format_0_3f NaN = ''nan''"
| "format_0_3f (Infinity s) = str_sign s @ ''inf''"
| "format_0_3f (Finite s m e) = str_sign s @ three_decimals (thousandths m e)"

text \<open>
  Rounding to the nearest thousandth with a tie going away from zero, as taught for
  rounding by hand: the reading of "standard rounding" that differs from the code's.
\<close>

definition thousandths_half_up :: "nat \<Rightarrow> int \<Rightarrow> nat" where
  "thousandths_half_up m e =
     (if 0 \<le> e then m * 1000 * 2 ^ nat e
      else (2 * (m * 1000) + 2 ^ nat (- e)) div 2 ^ Suc (nat (- e)))"

section \<open>Timer (code_utilities.py)\<close>

text \<open>
  A \<open>Timer\<close> object has the attributes its methods have assigned so far (\<open>None\<close>: not
  assigned yet); \<open>end_time\<close> is the attribute \<^verbatim>\<open>end\<close>. The reading of the clock,
  \<^verbatim>\<open>time()\<close>, is a parameter of each method.
\<close>

record Timer =
  start :: "double option"
  end_time :: "double option"
  elapsed_in_milli :: "double option"
  elapsed_in_milli_as_str :: "string option"

definition Timer_init :: Timer where
  "Timer_init =
     \<lparr>start = None, end_time = None, elapsed_in_milli = None, elapsed_in_milli_as_str = None\<rparr>"

definition Timer_enter :: "double \<Rightarrow> Timer \<Rightarrow> Timer" where
  "Timer_enter now self = self\<lparr>start := Some now\<rparr>"

definition Timer_exit :: "double \<Rightarrow> Timer \<Rightarrow> ('x exn + unit) \<times> Timer" where
  "Timer_exit now self =
     (let self1 = self\<lparr>end_time := Some now\<rparr>
      in case start self1 of
           None \<Rightarrow> (Inl AttributeError, self1)
         | Some started \<Rightarrow>
             (let elapsed = fmul (fsub now started) (Finite False 1000 0);
                  self2 = self1\<lparr>elapsed_in_milli := Some elapsed\<rparr>
              in (Inr (), self2\<lparr>elapsed_in_milli_as_str := Some (format_0_3f elapsed)\<rparr>)))"

text \<open>
  \<^verbatim>\<open>with Timer() as t: block\<close>. The block sees the timer and ends normally or with an
  exception; either way \<^verbatim>\<open>__exit__\<close> is called next, and as it returns \<^verbatim>\<open>None\<close> the
  exception of the block goes on to the caller afterwards.
\<close>

definition with_Timer ::
  "double \<Rightarrow> double \<Rightarrow> (Timer \<Rightarrow> 'x exn + 'r) \<Rightarrow> ('x exn + 'r) \<times> Timer" where
  "with_Timer time_at_enter time_at_exit block =
     (let t = Timer_enter time_at_enter Timer_init;
          outcome = block t
      in case Timer_exit time_at_exit t of
           (Inl e, t') \<Rightarrow> (Inl e, t')
         | (Inr u, t') \<Rightarrow> (outcome, t'))"


section \<open>Example objects\<close>

text \<open>
  Observers that return normally; observers of which number 2 raises; observers of which
  number 1 has a \<^verbatim>\<open>__repr__\<close> that raises; a state with a given observer list; the state
  reached from module load by registering the given observers in turn; a callable that
  fails on odd numbers, with the rendering of its one positional argument; a callable that
  returns an image of a one-dimensional array.
\<close>

definition quiet_runtime :: "(nat, unit, string) runtime" where
  "quiet_runtime =
     \<lparr>update_according_to_app_state = (\<lambda>ob st e. (None, e)),
      repr_observer = (\<lambda>ob. Inr ''<observer>''),
      repr_store = ''<DataStore>''\<rparr>"

definition failing_runtime :: "(nat, unit, string) runtime" where
  "failing_runtime =
     \<lparr>update_according_to_app_state =
        (\<lambda>ob st e. (if ob = 2 then Some (Raised ''boom'') else None, e)),
      repr_observer = (\<lambda>ob. Inr ''<observer>''),
      repr_store = ''<DataStore>''\<rparr>"

definition unprintable_runtime :: "(nat, unit, string) runtime" where
  "unprintable_runtime =
     \<lparr>update_according_to_app_state = (\<lambda>ob st e. (None, e)),
      repr_observer = (\<lambda>ob. if ob = 1 then Inl (Raised ''no repr'') else Inr ''<observer>''),
      repr_store = ''<DataStore>''\<rparr>"

definition with_observers :: "nat list \<Rightarrow> (nat, unit, string) state" where
  "with_observers obs =
     \<lparr>STORE = \<lparr>observers = obs, scan_in_progress = False, web_server_is_running = False\<rparr>,
      debug_log = [], calls = [], env = ()\<rparr>"

definition registered :: "nat list \<Rightarrow> (nat, unit, string) state" where
  "registered obs = foldl (\<lambda>s ob. snd (add_observer quiet_runtime ob s)) (module_state ()) obs"






section \<open>Properties of Image\<close>

text \<open>
  C5: \<open>needs_debayering\<close> holds exactly when the bayer pattern is present; setting a
  pattern and then setting it back to \<open>None\<close> makes it false again, and it is false for a
  freshly constructed image.
\<close>

theorem needs_debayering_iff_pattern:
  "needs_debayering img = (\<exists>p. bayer_pattern img = Some p)
   \<and> needs_debayering (set_bayer_pattern (Some p) img)
   \<and> needs_debayering (set_bayer_pattern None (set_bayer_pattern (Some p) img)) = False
   \<and> needs_debayering (Image_init d) = False"
  by (simp add: needs_debayering_def set_bayer_pattern_def Image_init_def)

text \<open>
  C6: \<open>is_color\<close> holds exactly when the array has more than two dimensions: false for
  shape \<open>(H, W)\<close>, true for shape \<open>(H, W, C)\<close>.
\<close>

theorem is_color_iff_more_than_two_dims:
  "is_color img = (2 < length (shape (data img)))
   \<and> is_color (Image_init \<lparr>shape = [h, w], dtype_name = t, elements = es\<rparr>) = False
   \<and> is_color (Image_init \<lparr>shape = [h, w, c], dtype_name = t, elements = es\<rparr>) = True"
  by (simp add: is_color_def Image_init_def)

text \<open>
  C7: for an array of shape \<open>(H, W) = (2, 3)\<close> the representation prints
  \<^verbatim>\<open>Width * Height = 2 * 3\<close>: the number under \<^verbatim>\<open>Width\<close> is the first dimension
  \<open>H\<close> and the one under \<^verbatim>\<open>Height\<close> is the second dimension \<open>W\<close>, where the claim has
  the width \<open>W\<close> and the height \<open>H\<close>.
\<close>

theorem Image_repr_width_is_first_dimension:
  "Image_repr (Image_init \<lparr>shape = [2, 3], dtype_name = ''uint16'', elements = [0, 0, 0, 0, 0, 0 :: nat]\<rparr>)
     = Inr (''Image('' @ newline
        @ ''Color = False,'' @ newline
        @ ''Needs Debayer = False,'' @ newline
        @ ''Bayer Pattern = None,'' @ newline
        @ ''Width * Height = 2 * 3,'' @ newline
        @ ''Data type = uint16,'' @ newline
        @ ''Origin = UNDEFINED)'')"
  by (simp add: Image_repr_def Image_init_def tuple_get_def is_color_def needs_debayering_def
      str_bool_def str_opt_def str_nat.simps digit_char_def newline_def)

section \<open>Properties of the log decorator and of DataStore\<close>

lemma logger_debug_fields [simp]:
  "STORE (logger_debug r s) = STORE s"
  "calls (logger_debug r s) = calls s"
  "env (logger_debug r s) = env s"
  "debug_log (logger_debug r s) = debug_log s @ [r]"
  by (simp_all add: logger_debug_def)

text \<open>The loop, from what the observers do.\<close>

lemma notify_loop_all_return:
  "all_return rt (STORE s) obs (env s) \<Longrightarrow>
   notify_loop rt obs s =
     (Inr (), s\<lparr>calls := calls s @ map (\<lambda>ob. (ob, None)) obs,
               env := env_after rt (STORE s) obs (env s)\<rparr>)"
proof (induction obs arbitrary: s)
  case Nil
  show ?case by simp
next
  case (Cons x xs)
  obtain en where u: "update_according_to_app_state rt x (STORE s) (env s) = (None, en)"
    using Cons.prems by (cases "update_according_to_app_state rt x (STORE s) (env s)") simp
  let ?s1 = "s\<lparr>calls := calls s @ [(x, None)], env := en\<rparr>"
  from Cons.prems u have "all_return rt (STORE ?s1) xs (env ?s1)" by simp
  from Cons.IH [OF this] u show ?case by simp
qed

lemma notify_loop_first_failure:
  "all_return rt (STORE s) pre (env s) \<Longrightarrow>
   update_according_to_app_state rt ob (STORE s) (env_after rt (STORE s) pre (env s)) = (Some e, en) \<Longrightarrow>
   notify_loop rt (pre @ ob # post) s =
     (Inl e, s\<lparr>calls := calls s @ map (\<lambda>ob. (ob, None)) pre @ [(ob, Some e)], env := en\<rparr>)"
proof (induction pre arbitrary: s)
  case Nil
  then show ?case by simp
next
  case (Cons x xs)
  obtain en1 where u: "update_according_to_app_state rt x (STORE s) (env s) = (None, en1)"
    using Cons.prems(1) by (cases "update_according_to_app_state rt x (STORE s) (env s)") simp
  let ?s1 = "s\<lparr>calls := calls s @ [(x, None)], env := en1\<rparr>"
  from Cons.prems u have "all_return rt (STORE ?s1) xs (env ?s1)"
    and "update_according_to_app_state rt ob (STORE ?s1) (env_after rt (STORE ?s1) xs (env ?s1)) = (Some e, en)"
    by simp_all
  from Cons.IH [OF this] u show ?case by simp
qed

lemma notify_loop_STORE: "STORE (snd (notify_loop rt obs s)) = STORE s"
  by (induction obs arbitrary: s) (auto split: prod.splits option.splits)

lemma notify_observers_eq:
  "notify_observers rt u s =
     (case notify_loop rt (observers (STORE s))
             (logger_debug (Called ''DataStore._notify_observers'' (str_tuple [repr_store rt]) ''{}'') s) of
        (Inl e, s') \<Rightarrow> (Inl e, s')
      | (Inr r, s') \<Rightarrow> (Inr r, logger_debug (Returned ''DataStore._notify_observers'' ''None'') s'))"
  by (simp add: notify_observers_def log_def str_self_def str_no_kwargs_def str_None_def
      split: prod.splits sum.splits)

lemma set_flag_eq:
  "set_flag rt f v s =
     (case notify_observers rt ()
             ((logger_debug (Called (flag_name f) (str_tuple [repr_store rt, str_bool v]) ''{}'') s)
              \<lparr>STORE := with_flag f v (STORE s)\<rparr>) of
        (Inl e, s') \<Rightarrow> (Inl e, s')
      | (Inr r, s') \<Rightarrow> (Inr r, logger_debug (Returned (flag_name f) ''None'') s'))"
  by (cases f)
    (simp_all add: set_flag_def set_scan_in_progress_def set_web_server_is_running_def log_def
      str_self_flag_def str_no_kwargs_def str_None_def with_flag_def flag_name_def
      split: prod.splits sum.splits)

lemma set_flag_all_return:
  assumes "all_return rt (with_flag f v (STORE s)) (observers (STORE s)) (env s)"
  shows "fst (set_flag rt f v s) = Inr ()"
    and "STORE (snd (set_flag rt f v s)) = with_flag f v (STORE s)"
    and "calls (snd (set_flag rt f v s)) = calls s @ map (\<lambda>ob. (ob, None)) (observers (STORE s))"
    and "env (snd (set_flag rt f v s))
           = env_after rt (with_flag f v (STORE s)) (observers (STORE s)) (env s)"
proof -
  let ?n = "flag_name f"
  let ?s1 = "(logger_debug (Called ?n (str_tuple [repr_store rt, str_bool v]) ''{}'') s)
               \<lparr>STORE := with_flag f v (STORE s)\<rparr>"
  let ?s2 = "logger_debug (Called ''DataStore._notify_observers'' (str_tuple [repr_store rt]) ''{}'') ?s1"
  have o: "observers (STORE ?s1) = observers (STORE s)"
    by (cases f) (simp_all add: with_flag_def)
  from assms have "all_return rt (STORE ?s2) (observers (STORE s)) (env ?s2)" by simp
  from notify_loop_all_return [OF this]
  have l: "notify_loop rt (observers (STORE ?s1)) ?s2 =
     (Inr (), ?s2\<lparr>calls := calls ?s2 @ map (\<lambda>ob. (ob, None)) (observers (STORE s)),
               env := env_after rt (STORE ?s2) (observers (STORE s)) (env ?s2)\<rparr>)"
    by (simp only: o)
  have n: "notify_observers rt () ?s1 =
     (Inr (), logger_debug (Returned ''DataStore._notify_observers'' ''None'')
        (?s2\<lparr>calls := calls ?s2 @ map (\<lambda>ob. (ob, None)) (observers (STORE s)),
               env := env_after rt (STORE ?s2) (observers (STORE s)) (env ?s2)\<rparr>))"
    by (simp only: notify_observers_eq [of rt "()" ?s1] l prod.case sum.case)
  have e: "set_flag rt f v s =
     (Inr (), logger_debug (Returned ?n ''None'')
       (logger_debug (Returned ''DataStore._notify_observers'' ''None'')
        (?s2\<lparr>calls := calls ?s2 @ map (\<lambda>ob. (ob, None)) (observers (STORE s)),
               env := env_after rt (STORE ?s2) (observers (STORE s)) (env ?s2)\<rparr>)))"
    by (simp only: set_flag_eq [of rt f v s] n prod.case sum.case)
  show "fst (set_flag rt f v s) = Inr ()" by (simp only: e fst_conv)
  show "STORE (snd (set_flag rt f v s)) = with_flag f v (STORE s)" by (simp add: e)
  show "calls (snd (set_flag rt f v s)) = calls s @ map (\<lambda>ob. (ob, None)) (observers (STORE s))"
    by (simp add: e)
  show "env (snd (set_flag rt f v s))
           = env_after rt (with_flag f v (STORE s)) (observers (STORE s)) (env s)"
    by (simp add: e)
qed

lemma set_flag_first_failure:
  assumes "observers (STORE s) = pre @ ob # post"
    and "all_return rt (with_flag f v (STORE s)) pre (env s)"
    and "update_according_to_app_state rt ob (with_flag f v (STORE s))
           (env_after rt (with_flag f v (STORE s)) pre (env s)) = (Some e, en)"
  shows "fst (set_flag rt f v s) = Inl e"
    and "STORE (snd (set_flag rt f v s)) = with_flag f v (STORE s)"
    and "calls (snd (set_flag rt f v s)) = calls s @ map (\<lambda>ob. (ob, None)) pre @ [(ob, Some e)]"
    and "env (snd (set_flag rt f v s)) = en"
proof -
  let ?s1 = "(logger_debug (Called (flag_name f) (str_tuple [repr_store rt, str_bool v]) ''{}'') s)
               \<lparr>STORE := with_flag f v (STORE s)\<rparr>"
  let ?s2 = "logger_debug (Called ''DataStore._notify_observers'' (str_tuple [repr_store rt]) ''{}'') ?s1"
  have o: "observers (STORE ?s1) = pre @ ob # post"
    using assms(1) by (cases f) (simp_all add: with_flag_def)
  from assms(2,3) have "all_return rt (STORE ?s2) pre (env ?s2)"
    and "update_according_to_app_state rt ob (STORE ?s2) (env_after rt (STORE ?s2) pre (env ?s2)) = (Some e, en)"
    by simp_all
  from notify_loop_first_failure [OF this]
  have l: "notify_loop rt (observers (STORE ?s1)) ?s2 =
     (Inl e, ?s2\<lparr>calls := calls ?s2 @ map (\<lambda>ob. (ob, None)) pre @ [(ob, Some e)], env := en\<rparr>)"
    by (simp only: o)
  have n: "notify_observers rt () ?s1 =
     (Inl e, ?s2\<lparr>calls := calls ?s2 @ map (\<lambda>ob. (ob, None)) pre @ [(ob, Some e)], env := en\<rparr>)"
    by (simp only: notify_observers_eq [of rt "()" ?s1] l prod.case sum.case)
  have e: "set_flag rt f v s =
     (Inl e, ?s2\<lparr>calls := calls ?s2 @ map (\<lambda>ob. (ob, None)) pre @ [(ob, Some e)], env := en\<rparr>)"
    by (simp only: set_flag_eq [of rt f v s] n prod.case sum.case)
  show "fst (set_flag rt f v s) = Inl e" by (simp only: e fst_conv)
  show "STORE (snd (set_flag rt f v s)) = with_flag f v (STORE s)" by (simp add: e)
  show "calls (snd (set_flag rt f v s)) = calls s @ map (\<lambda>ob. (ob, None)) pre @ [(ob, Some e)]"
    by (simp add: e)
  show "env (snd (set_flag rt f v s)) = en" by (simp add: e)
qed

lemma notify_observers_STORE: "STORE (snd (notify_observers rt u s)) = STORE s"
proof -
  obtain r s' where l: "notify_loop rt (observers (STORE s))
      (logger_debug (Called ''DataStore._notify_observers'' (str_tuple [repr_store rt]) ''{}'') s) = (r, s')"
    by (cases "notify_loop rt (observers (STORE s))
      (logger_debug (Called ''DataStore._notify_observers'' (str_tuple [repr_store rt]) ''{}'') s)")
  from notify_loop_STORE [of rt "observers (STORE s)"
      "logger_debug (Called ''DataStore._notify_observers'' (str_tuple [repr_store rt]) ''{}'') s"] l
  have "STORE s' = STORE s" by simp
  with l show ?thesis by (cases r) (simp_all add: notify_observers_eq)
qed

lemma set_flag_STORE: "STORE (snd (set_flag rt f v s)) = with_flag f v (STORE s)"
proof -
  let ?s1 = "(logger_debug (Called (flag_name f) (str_tuple [repr_store rt, str_bool v]) ''{}'') s)
               \<lparr>STORE := with_flag f v (STORE s)\<rparr>"
  obtain r s' where n: "notify_observers rt () ?s1 = (r, s')" by (cases "notify_observers rt () ?s1")
  from notify_observers_STORE [of rt "()" ?s1] n have "STORE s' = with_flag f v (STORE s)" by simp
  with n show ?thesis by (cases r) (simp_all add: set_flag_eq)
qed

lemma flag_value_with_flag: "flag_value f (with_flag f v st) = v"
  by (cases f) (simp_all add: flag_value_def with_flag_def)

lemma set_scan_in_progress_STORE:
  "STORE (snd (set_scan_in_progress rt v s)) = (STORE s)\<lparr>scan_in_progress := v\<rparr>"
  using set_flag_STORE [of rt Scan_in_progress v s] by (simp add: set_flag_def with_flag_def)

lemma set_web_server_is_running_STORE:
  "STORE (snd (set_web_server_is_running rt v s)) = (STORE s)\<lparr>web_server_is_running := v\<rparr>"
  using set_flag_STORE [of rt Web_server_is_running v s] by (simp add: set_flag_def with_flag_def)

lemma add_observer_eq:
  "add_observer rt ob s =
     (case repr_observer rt ob of
        Inl e \<Rightarrow> (Inl e, s)
      | Inr r \<Rightarrow>
          (Inr (), logger_debug (Returned ''DataStore.add_observer'' ''None'')
             ((logger_debug (Called ''DataStore.add_observer'' (str_tuple [repr_store rt, r]) ''{}'') s)
                \<lparr>STORE := (STORE s)\<lparr>observers := observers (STORE s) @ [ob]\<rparr>\<rparr>)))"
  by (simp add: add_observer_def log_def str_self_observer_def str_no_kwargs_def str_None_def
      split: sum.splits)

lemma remove_observer_eq:
  "remove_observer rt ob s =
     (case repr_observer rt ob of
        Inl e \<Rightarrow> (Inl e, s)
      | Inr r \<Rightarrow>
          (case list_remove ob (observers (STORE s)) of
             None \<Rightarrow> (Inl ValueError,
                logger_debug (Called ''DataStore.remove_observer'' (str_tuple [repr_store rt, r]) ''{}'') s)
           | Some xs \<Rightarrow>
               (Inr (), logger_debug (Returned ''DataStore.remove_observer'' ''None'')
                  ((logger_debug (Called ''DataStore.remove_observer'' (str_tuple [repr_store rt, r]) ''{}'') s)
                     \<lparr>STORE := (STORE s)\<lparr>observers := xs\<rparr>\<rparr>))))"
  by (simp add: remove_observer_def log_def str_self_observer_def str_no_kwargs_def str_None_def
      split: sum.splits option.splits)

text \<open>
  C10: a set of one flag leaves the other flag and the observer list as they were;
  \<open>add_observer\<close> and \<open>remove_observer\<close> leave both flags as they were.
\<close>

theorem operations_touch_only_their_field:
  "web_server_is_running (STORE (snd (set_scan_in_progress rt v s))) = web_server_is_running (STORE s)
   \<and> observers (STORE (snd (set_scan_in_progress rt v s))) = observers (STORE s)
   \<and> scan_in_progress (STORE (snd (set_web_server_is_running rt v s))) = scan_in_progress (STORE s)
   \<and> observers (STORE (snd (set_web_server_is_running rt v s))) = observers (STORE s)
   \<and> scan_in_progress (STORE (snd (add_observer rt ob s))) = scan_in_progress (STORE s)
   \<and> web_server_is_running (STORE (snd (add_observer rt ob s))) = web_server_is_running (STORE s)
   \<and> scan_in_progress (STORE (snd (remove_observer rt ob s))) = scan_in_progress (STORE s)
   \<and> web_server_is_running (STORE (snd (remove_observer rt ob s))) = web_server_is_running (STORE s)"
  by (simp add: set_scan_in_progress_STORE set_web_server_is_running_STORE add_observer_eq
      remove_observer_eq split: sum.splits option.splits)

lemmas eval_defs = set_flag_def set_scan_in_progress_def set_web_server_is_running_def
  notify_observers_def log_def logger_debug_def add_observer_def remove_observer_def
  module_state_def DataStore_init_def quiet_runtime_def failing_runtime_def
  unprintable_runtime_def with_observers_def registered_def flag_value_def with_flag_def
  str_self_def str_self_flag_def str_self_observer_def str_no_kwargs_def str_None_def
  str_result_bool_def

text \<open>
  C1, amended: a set of \<open>scan_in_progress\<close> or \<open>web_server_is_running\<close> to any boolean,
  equal to the current value or not, overwrites the flag. When every observer's update
  returns normally, the setter returns normally, and the invocations of
  \<^verbatim>\<open>update_according_to_app_state\<close> made within the call are one per entry of the observer
  list, in list order (an observer registered twice is invoked twice), each made on the
  store that holds the new value.
\<close>

theorem set_flag_notifies_each_entry_in_order:
  "flag_value f (STORE (snd (set_flag rt f v s))) = v
   \<and> (all_return rt (with_flag f v (STORE s)) (observers (STORE s)) (env s) \<longrightarrow>
        fst (set_flag rt f v s) = Inr ()
        \<and> calls (snd (set_flag rt f v s)) = calls s @ map (\<lambda>ob. (ob, None)) (observers (STORE s))
        \<and> env (snd (set_flag rt f v s))
            = env_after rt (with_flag f v (STORE s)) (observers (STORE s)) (env s))"
  using set_flag_all_return [of rt f v s]
  by (simp add: set_flag_STORE flag_value_with_flag)

theorem set_flag_notifies_each_entry_in_order_witness:
  "all_return quiet_runtime (with_flag Scan_in_progress False (STORE (with_observers [1, 2])))
      (observers (STORE (with_observers [1, 2]))) (env (with_observers [1, 2]))
   \<and> fst (set_flag quiet_runtime Scan_in_progress False (with_observers [1, 2])) = Inr ()
   \<and> flag_value Scan_in_progress
        (STORE (snd (set_flag quiet_runtime Scan_in_progress False (with_observers [1, 2])))) = False
   \<and> calls (snd (set_flag quiet_runtime Scan_in_progress False (with_observers [1, 2])))
        = [(1, None), (2, None)]
   \<and> all_return quiet_runtime (with_flag Web_server_is_running True (STORE (with_observers [3])))
      (observers (STORE (with_observers [3]))) (env (with_observers [3]))
   \<and> fst (set_flag quiet_runtime Web_server_is_running True (with_observers [3])) = Inr ()
   \<and> flag_value Web_server_is_running
        (STORE (snd (set_flag quiet_runtime Web_server_is_running True (with_observers [3])))) = True
   \<and> calls (snd (set_flag quiet_runtime Web_server_is_running True (with_observers [3])))
        = [(3, None)]"
  using set_flag_notifies_each_entry_in_order
      [of Scan_in_progress quiet_runtime False "with_observers [1, 2]"]
    set_flag_notifies_each_entry_in_order
      [of Web_server_is_running quiet_runtime True "with_observers [3]"]
  by (simp add: eval_defs)

text \<open>
  C1, as stated, fails in two ways. With the observers 1, 2 and 3 registered and the update
  of observer 2 raising, a set of \<open>scan_in_progress\<close> invokes observers 1 and 2 and never
  observer 3. With observer 1 registered twice, a set invokes it twice.
\<close>

theorem set_flag_skips_or_repeats_observers:
  "observers (STORE (with_observers [1, 2, 3])) = [1, 2, 3]
   \<and> calls (snd (set_flag failing_runtime Scan_in_progress True (with_observers [1, 2, 3])))
        = [(1, None), (2, Some (Raised ''boom''))]
   \<and> observers (STORE (registered [1, 1])) = [1, 1]
   \<and> calls (snd (set_flag quiet_runtime Scan_in_progress True (registered [1, 1])))
        = [(1, None), (1, None)]"
  by (simp add: eval_defs)

text \<open>
  C9: when the update of an observer raises \<open>e\<close> during the pass a flag set triggers, the
  updates of the entries before it having returned normally, the setter fails with \<open>e\<close>,
  the flag holds the new value, and the invocations made are those of the entries before
  the failing one and of the failing one: the entries after it are not notified.
\<close>

theorem failing_observer_aborts_pass:
  assumes "observers (STORE s) = pre @ ob # post"
    and "all_return rt (with_flag f v (STORE s)) pre (env s)"
    and "update_according_to_app_state rt ob (with_flag f v (STORE s))
           (env_after rt (with_flag f v (STORE s)) pre (env s)) = (Some e, en)"
  shows "fst (set_flag rt f v s) = Inl e
         \<and> flag_value f (STORE (snd (set_flag rt f v s))) = v
         \<and> calls (snd (set_flag rt f v s)) = calls s @ map (\<lambda>ob. (ob, None)) pre @ [(ob, Some e)]
         \<and> env (snd (set_flag rt f v s)) = en"
  using set_flag_first_failure [OF assms]
  by (simp add: flag_value_with_flag)

theorem failing_observer_aborts_pass_witness:
  "observers (STORE (with_observers [1, 2, 3])) = [1] @ 2 # [3]
   \<and> all_return failing_runtime (with_flag Web_server_is_running True (STORE (with_observers [1, 2, 3])))
        [1] (env (with_observers [1, 2, 3]))
   \<and> update_according_to_app_state failing_runtime 2
        (with_flag Web_server_is_running True (STORE (with_observers [1, 2, 3])))
        (env_after failing_runtime (with_flag Web_server_is_running True (STORE (with_observers [1, 2, 3])))
           [1] (env (with_observers [1, 2, 3])))
       = (Some (Raised ''boom''), ())
   \<and> fst (set_flag failing_runtime Web_server_is_running True (with_observers [1, 2, 3]))
       = Inl (Raised ''boom'')
   \<and> flag_value Web_server_is_running
        (STORE (snd (set_flag failing_runtime Web_server_is_running True (with_observers [1, 2, 3]))))
   \<and> calls (snd (set_flag failing_runtime Web_server_is_running True (with_observers [1, 2, 3])))
       = [(1, None), (2, Some (Raised ''boom''))]
   \<and> fst (set_flag failing_runtime Scan_in_progress True (with_observers [2, 1]))
       = Inl (Raised ''boom'')
   \<and> flag_value Scan_in_progress
        (STORE (snd (set_flag failing_runtime Scan_in_progress True (with_observers [2, 1]))))
   \<and> calls (snd (set_flag failing_runtime Scan_in_progress True (with_observers [2, 1])))
       = [(2, Some (Raised ''boom''))]"
  using failing_observer_aborts_pass
      [of "with_observers [1, 2, 3]" "[1]" 2 "[3]" failing_runtime Web_server_is_running True
          "Raised ''boom''" "()"]
    failing_observer_aborts_pass
      [of "with_observers [2, 1]" "[]" 2 "[1]" failing_runtime Scan_in_progress True
          "Raised ''boom''" "()"]
  by (simp add: eval_defs)



lemma list_remove_remove1: "list_remove x xs = Some ys \<Longrightarrow> ys = remove1 x xs"
  by (induction xs arbitrary: ys) (auto split: if_splits)

lemma list_remove_subset: "list_remove x xs = Some ys \<Longrightarrow> set ys \<subseteq> set xs"
  by (induction xs arbitrary: ys) (auto split: if_splits)







lemma notify_loop_new_calls:
  "\<exists>new. calls (snd (notify_loop rt obs s)) = calls s @ new \<and> fst ` set new \<subseteq> set obs"
proof (induction obs arbitrary: s)
  case Nil
  show ?case by simp
next
  case (Cons x xs)
  obtain res en where u: "update_according_to_app_state rt x (STORE s) (env s) = (res, en)"
    by (cases "update_according_to_app_state rt x (STORE s) (env s)")
  show ?case
  proof (cases res)
    case None
    let ?s1 = "s\<lparr>calls := calls s @ [(x, None)], env := en\<rparr>"
    from Cons.IH [of ?s1] obtain new where
      n: "calls (snd (notify_loop rt xs ?s1)) = calls ?s1 @ new" "fst ` set new \<subseteq> set xs" by blast
    show ?thesis
    proof (intro exI conjI)
      from n(1) u None show "calls (snd (notify_loop rt (x # xs) s)) = calls s @ ((x, None) # new)"
        by simp
      from n(2) show "fst ` set ((x, None) # new) \<subseteq> set (x # xs)" by auto
    qed
  next
    case (Some e)
    show ?thesis
    proof (intro exI conjI)
      from u Some show "calls (snd (notify_loop rt (x # xs) s)) = calls s @ [(x, Some e)]" by simp
      show "fst ` set [(x, Some e)] \<subseteq> set (x # xs)" by simp
    qed
  qed
qed

lemma set_flag_new_calls:
  "\<exists>new. calls (snd (set_flag rt f v s)) = calls s @ new
     \<and> fst ` set new \<subseteq> set (observers (STORE s))"
proof -
  let ?s1 = "(logger_debug (Called (flag_name f) (str_tuple [repr_store rt, str_bool v]) ''{}'') s)
               \<lparr>STORE := with_flag f v (STORE s)\<rparr>"
  let ?s2 = "logger_debug (Called ''DataStore._notify_observers'' (str_tuple [repr_store rt]) ''{}'') ?s1"
  have o: "observers (STORE ?s1) = observers (STORE s)"
    by (cases f) (simp_all add: with_flag_def)
  obtain r s3 where l: "notify_loop rt (observers (STORE ?s1)) ?s2 = (r, s3)"
    by (cases "notify_loop rt (observers (STORE ?s1)) ?s2")
  from notify_loop_new_calls [of rt "observers (STORE ?s1)" ?s2] l o obtain new where
    n: "calls s3 = calls s @ new" "fst ` set new \<subseteq> set (observers (STORE s))" by auto
  have "calls (snd (notify_observers rt () ?s1)) = calls s3"
    using l by (cases r) (simp_all add: notify_observers_eq)
  then have "calls (snd (set_flag rt f v s)) = calls s3"
    by (cases "notify_observers rt () ?s1"; cases "fst (notify_observers rt () ?s1)")
      (simp_all add: set_flag_eq)
  with n show ?thesis by auto
qed

lemma with_flag_observers: "observers (with_flag f v st) = observers st"
  by (cases f) (simp_all add: with_flag_def)

text \<open>One operation: the invocations it makes, and the observers it leaves registered.\<close>

lemma do_operation_effect:
  "\<exists>new. calls (do_operation rt operation s) = calls s @ new
     \<and> fst ` set new \<subseteq> set (observers (STORE s))
     \<and> set (observers (STORE (do_operation rt operation s)))
          \<subseteq> set (observers (STORE s)) \<union> {ob. operation = Add_observer ob}"
proof (cases operation)
  case (Get_flag f)
  have "calls (do_operation rt operation s) = calls s @ []
     \<and> fst ` set [] \<subseteq> set (observers (STORE s))
     \<and> set (observers (STORE (do_operation rt operation s)))
          \<subseteq> set (observers (STORE s)) \<union> {ob. operation = Add_observer ob}"
    using Get_flag
    by (cases f)
      (simp_all add: do_operation_def get_scan_in_progress_def get_web_server_is_running_def
        log_def str_self_def str_no_kwargs_def str_result_bool_def)
  then show ?thesis by blast
next
  case (Set_flag f v)
  from set_flag_new_calls [of rt f v s] obtain new where
    "calls (snd (set_flag rt f v s)) = calls s @ new" "fst ` set new \<subseteq> set (observers (STORE s))"
    by blast
  with Set_flag have "calls (do_operation rt operation s) = calls s @ new
     \<and> fst ` set new \<subseteq> set (observers (STORE s))
     \<and> set (observers (STORE (do_operation rt operation s)))
          \<subseteq> set (observers (STORE s)) \<union> {ob. operation = Add_observer ob}"
    by (simp add: do_operation_def set_flag_STORE with_flag_observers)
  then show ?thesis by blast
next
  case (Add_observer ob)
  have "calls (do_operation rt operation s) = calls s @ []
     \<and> fst ` set [] \<subseteq> set (observers (STORE s))
     \<and> set (observers (STORE (do_operation rt operation s)))
          \<subseteq> set (observers (STORE s)) \<union> {ob. operation = Add_observer ob}"
    using Add_observer
    by (cases "repr_observer rt ob") (auto simp: do_operation_def add_observer_eq)
  then show ?thesis by blast
next
  case (Remove_observer ob)
  have "calls (do_operation rt operation s) = calls s @ []
     \<and> fst ` set [] \<subseteq> set (observers (STORE s))
     \<and> set (observers (STORE (do_operation rt operation s)))
          \<subseteq> set (observers (STORE s)) \<union> {ob. operation = Add_observer ob}"
    using Remove_observer list_remove_subset [of ob "observers (STORE s)"]
    by (cases "repr_observer rt ob"; cases "list_remove ob (observers (STORE s))")
      (auto simp: do_operation_def remove_observer_eq)
  then show ?thesis by blast
qed

lemma do_operations_unregistered:
  "observer \<notin> set (observers (STORE s)) \<Longrightarrow> Add_observer observer \<notin> set later \<Longrightarrow>
   \<exists>new. calls (do_operations rt later s) = calls s @ new \<and> observer \<notin> fst ` set new"
proof (induction later arbitrary: s)
  case Nil
  have "calls (do_operations rt [] s) = calls s @ [] \<and> observer \<notin> fst ` set []" by simp
  then show ?case by blast
next
  case (Cons operation later)
  let ?s1 = "do_operation rt operation s"
  from do_operation_effect [of rt operation s] obtain n1 where
    n1: "calls ?s1 = calls s @ n1" "fst ` set n1 \<subseteq> set (observers (STORE s))"
      "set (observers (STORE ?s1)) \<subseteq> set (observers (STORE s)) \<union> {ob. operation = Add_observer ob}"
    by blast
  from Cons.prems(2) have "operation \<noteq> Add_observer observer" "Add_observer observer \<notin> set later"
    by auto
  with n1(3) Cons.prems(1) have "observer \<notin> set (observers (STORE ?s1))" by auto
  from Cons.IH [OF this \<open>Add_observer observer \<notin> set later\<close>] obtain n2 where
    n2: "calls (do_operations rt later ?s1) = calls ?s1 @ n2" "observer \<notin> fst ` set n2" by blast
  from n1(2) Cons.prems(1) have "observer \<notin> fst ` set n1" by auto
  with n1(1) n2 have "calls (do_operations rt (operation # later) s) = calls s @ (n1 @ n2)
     \<and> observer \<notin> fst ` set (n1 @ n2)" by (simp add: image_Un)
  then show ?case by blast
qed

lemma list_remove_only_entry:
  "count_list xs x = 1 \<Longrightarrow> \<exists>ys. list_remove x xs = Some ys \<and> x \<notin> set ys"
proof (induction xs)
  case Nil
  then show ?case by simp
next
  case (Cons y ys)
  show ?case
  proof (cases "y = x")
    case True
    with Cons.prems have "count_list ys x = 0" by simp
    then have "x \<notin> set ys" by (simp add: count_list_0_iff)
    with True show ?thesis by simp
  next
    case False
    with Cons.prems have "count_list ys x = 1" by simp
    from Cons.IH [OF this] obtain zs where "list_remove x ys = Some zs" "x \<notin> set zs" by blast
    with False show ?thesis by auto
  qed
qed

text \<open>
  C2, amended: for an observer that occurs exactly once in the observer list, after a
  successful \<open>remove_observer\<close> none of the invocations made by the operations that follow
  on that store, flag sets among them, is an invocation of that observer, as long as the
  observer is not added again.
\<close>

theorem removed_observer_not_notified:
  assumes "remove_observer rt observer s = (Inr (), s1)"
    and "count_list (observers (STORE s)) observer = 1"
    and "Add_observer observer \<notin> set later"
  shows "\<exists>new. calls (do_operations rt later s1) = calls s1 @ new \<and> observer \<notin> fst ` set new"
proof -
  from list_remove_only_entry [OF assms(2)] obtain ys where
    ys: "list_remove observer (observers (STORE s)) = Some ys" "observer \<notin> set ys" by blast
  from assms(1) ys(1) have "observers (STORE s1) = ys"
    by (cases "repr_observer rt observer") (auto simp: remove_observer_eq)
  with ys(2) have "observer \<notin> set (observers (STORE s1))" by simp
  from do_operations_unregistered [OF this assms(3)] show ?thesis .
qed

theorem removed_observer_not_notified_witness:
  "remove_observer quiet_runtime 2 (registered [1, 2, 3])
     = (Inr (), snd (remove_observer quiet_runtime 2 (registered [1, 2, 3])))
   \<and> count_list (observers (STORE (registered [1, 2, 3]))) 2 = 1
   \<and> Add_observer (2 :: nat) \<notin> set [Set_flag Scan_in_progress True, Add_observer 4,
        Get_flag Scan_in_progress, Remove_observer 1, Set_flag Web_server_is_running True]
   \<and> calls (do_operations quiet_runtime
        [Set_flag Scan_in_progress True, Add_observer 4, Get_flag Scan_in_progress,
         Remove_observer 1, Set_flag Web_server_is_running True]
        (snd (remove_observer quiet_runtime 2 (registered [1, 2, 3]))))
       = calls (snd (remove_observer quiet_runtime 2 (registered [1, 2, 3])))
         @ [(1, None), (3, None), (3, None), (4, None)]"
  using removed_observer_not_notified [of quiet_runtime 2 "registered [1, 2, 3]"
      "snd (remove_observer quiet_runtime 2 (registered [1, 2, 3]))"
      "[Set_flag Scan_in_progress True, Add_observer 4, Get_flag Scan_in_progress,
        Remove_observer 1, Set_flag Web_server_is_running True]"]
  by (simp add: eval_defs do_operation_def get_scan_in_progress_def get_web_server_is_running_def)

text \<open>
  C2, as stated, fails for an observer registered twice: \<open>remove_observer\<close> succeeds and
  drops the first entry only, and the next flag set notifies the observer through the
  entry that is left.
\<close>

theorem twice_registered_observer_still_notified:
  "observers (STORE (registered [1, 1])) = [1, 1]
   \<and> fst (remove_observer quiet_runtime 1 (registered [1, 1])) = Inr ()
   \<and> calls (snd (remove_observer quiet_runtime 1 (registered [1, 1]))) = []
   \<and> calls (snd (set_scan_in_progress quiet_runtime True
        (snd (remove_observer quiet_runtime 1 (registered [1, 1]))))) = [(1, None)]"
  by (simp add: eval_defs)

section \<open>Properties of Timer\<close>

text \<open>The rounding of \<open>a / p\<close>: nearest, and even on a tie.\<close>

lemma round_even_nearest:
  fixes a p q r n :: nat
  assumes "a = q * p + r" and "r < p"
    and "n = (if 2 * r < p then q else if p < 2 * r then q + 1 else if even q then q else q + 1)"
  shows "2 * \<bar>int n * int p - int a\<bar> \<le> int p"
    and "2 * \<bar>int n * int p - int a\<bar> = int p \<longrightarrow> even n"
proof -
  have a: "int a = int q * int p + int r" using assms(1) by simp
  consider (low) "2 * r < p" | (high) "p < 2 * r" | (tie) "2 * r = p" by linarith
  then show "2 * \<bar>int n * int p - int a\<bar> \<le> int p"
  proof cases
    case low
    with assms(3) have "n = q" by simp
    with a low show ?thesis by simp
  next
    case high
    with assms(3) have "n = q + 1" by simp
    then have "int n * int p - int a = int p - int r" using a by (simp add: algebra_simps)
    with high assms(2) show ?thesis by simp
  next
    case tie
    show ?thesis
    proof (cases "even q")
      case True
      with tie assms(3) have "n = q" by simp
      with a tie show ?thesis by simp
    next
      case False
      with tie assms(3) have "n = q + 1" by simp
      then have "int n * int p - int a = int p - int r" using a by (simp add: algebra_simps)
      with tie assms(2) show ?thesis by simp
    qed
  qed
  show "2 * \<bar>int n * int p - int a\<bar> = int p \<longrightarrow> even n"
  proof (cases "2 * r = p")
    case True
    with assms(3) show ?thesis by simp
  next
    case False
    then consider (low) "2 * r < p" | (high) "p < 2 * r" by linarith
    then have "2 * \<bar>int n * int p - int a\<bar> \<noteq> int p"
    proof cases
      case low
      with assms(3) have "n = q" by simp
      with a low show ?thesis by simp
    next
      case high
      with assms(3) have "n = q + 1" by simp
      then have "int n * int p - int a = int p - int r" using a by (simp add: algebra_simps)
      with high assms(2) show ?thesis by simp
    qed
    then show ?thesis by simp
  qed
qed

lemma shift_round_even_nearest:
  "2 * \<bar>int (shift_round_even a k) * 2 ^ k - int a\<bar> \<le> 2 ^ k"
  "2 * \<bar>int (shift_round_even a k) * 2 ^ k - int a\<bar> = 2 ^ k \<longrightarrow> even (shift_round_even a k)"
proof -
  have 1: "a = (a div 2 ^ k) * 2 ^ k + a mod 2 ^ k" by (rule div_mult_mod_eq [symmetric])
  have 2: "a mod 2 ^ k < (2 :: nat) ^ k" by simp
  have 3: "shift_round_even a k =
     (if 2 * (a mod 2 ^ k) < 2 ^ k then a div 2 ^ k
      else if 2 ^ k < 2 * (a mod 2 ^ k) then a div 2 ^ k + 1
      else if even (a div 2 ^ k) then a div 2 ^ k else a div 2 ^ k + 1)"
    by (simp add: shift_round_even_def Let_def)
  from round_even_nearest(1) [OF 1 2 3]
  show "2 * \<bar>int (shift_round_even a k) * 2 ^ k - int a\<bar> \<le> 2 ^ k" by simp
  from round_even_nearest(2) [OF 1 2 3]
  show "2 * \<bar>int (shift_round_even a k) * 2 ^ k - int a\<bar> = 2 ^ k \<longrightarrow> even (shift_round_even a k)"
    by simp
qed

lemma thousandths_nearest:
  assumes "e < 0"
  shows "2 * \<bar>int (thousandths m e) * 2 ^ nat (- e) - int (m * 1000)\<bar> \<le> 2 ^ nat (- e)"
    and "2 * \<bar>int (thousandths m e) * 2 ^ nat (- e) - int (m * 1000)\<bar> = 2 ^ nat (- e)
           \<longrightarrow> even (thousandths m e)"
proof -
  from assms have t: "thousandths m e = shift_round_even (m * 1000) (nat (- e))"
    by (simp add: thousandths_def)
  from shift_round_even_nearest(1) [of "m * 1000" "nat (- e)"]
  show "2 * \<bar>int (thousandths m e) * 2 ^ nat (- e) - int (m * 1000)\<bar> \<le> 2 ^ nat (- e)"
    by (simp only: t)
  from shift_round_even_nearest(2) [of "m * 1000" "nat (- e)"]
  show "2 * \<bar>int (thousandths m e) * 2 ^ nat (- e) - int (m * 1000)\<bar> = 2 ^ nat (- e)
           \<longrightarrow> even (thousandths m e)"
    by (simp only: t)
qed

lemma with_Timer_eq:
  "with_Timer t0 t1 block =
     (block \<lparr>start = Some t0, end_time = None, elapsed_in_milli = None,
             elapsed_in_milli_as_str = None\<rparr>,
      \<lparr>start = Some t0, end_time = Some t1,
       elapsed_in_milli = Some (fmul (fsub t1 t0) (Finite False 1000 0)),
       elapsed_in_milli_as_str = Some (format_0_3f (fmul (fsub t1 t0) (Finite False 1000 0)))\<rparr>)"
  by (simp add: with_Timer_def Timer_enter_def Timer_exit_def Timer_init_def Let_def)

text \<open>
  C8, amended: on release of a \<open>Timer\<close> block, whether the block completes normally or
  fails, \<open>elapsed_in_milli\<close> is the float product by 1000 of the float difference of the
  clock readings at exit and at enter, and \<open>elapsed_in_milli_as_str\<close> is that float
  written with its sign, its integer part and exactly three decimals, the exact value of
  the float being rounded to the nearest thousandth and, when it lies halfway between two
  thousandths, to the even one. The outcome of the block is the outcome of the whole. For
  the float nearest to 12.3456 the string is \<^verbatim>\<open>12.346\<close>.
\<close>

theorem Timer_elapsed_on_release:
  "snd (with_Timer t0 t1 block) =
     \<lparr>start = Some t0, end_time = Some t1,
      elapsed_in_milli = Some (fmul (fsub t1 t0) (Finite False 1000 0)),
      elapsed_in_milli_as_str = Some (format_0_3f (fmul (fsub t1 t0) (Finite False 1000 0)))\<rparr>
   \<and> fst (with_Timer t0 t1 block) =
        block \<lparr>start = Some t0, end_time = None, elapsed_in_milli = None,
               elapsed_in_milli_as_str = None\<rparr>
   \<and> format_0_3f (Finite s m e) =
        (if s then ''-'' else []) @ str_nat (thousandths m e div 1000) @ ''.''
          @ [digit_char (thousandths m e div 100 mod 10),
             digit_char (thousandths m e div 10 mod 10),
             digit_char (thousandths m e mod 10)]
   \<and> (0 \<le> e \<longrightarrow> thousandths m e = m * 1000 * 2 ^ nat e)
   \<and> (e < 0 \<longrightarrow>
        2 * \<bar>int (thousandths m e) * 2 ^ nat (- e) - int (m * 1000)\<bar> \<le> 2 ^ nat (- e)
        \<and> (2 * \<bar>int (thousandths m e) * 2 ^ nat (- e) - int (m * 1000)\<bar> = 2 ^ nat (- e)
             \<longrightarrow> even (thousandths m e)))
   \<and> \<bar>10000 * 6949954944958149 - 123456 * 2 ^ 49\<bar> \<le> (5000 :: int)
   \<and> format_0_3f (Finite False 6949954944958149 (- 49)) = ''12.346''"
proof (intro conjI impI)
  show "snd (with_Timer t0 t1 block) =
     \<lparr>start = Some t0, end_time = Some t1,
      elapsed_in_milli = Some (fmul (fsub t1 t0) (Finite False 1000 0)),
      elapsed_in_milli_as_str = Some (format_0_3f (fmul (fsub t1 t0) (Finite False 1000 0)))\<rparr>"
    by (simp add: with_Timer_eq)
  show "fst (with_Timer t0 t1 block) =
        block \<lparr>start = Some t0, end_time = None, elapsed_in_milli = None,
               elapsed_in_milli_as_str = None\<rparr>"
    by (simp add: with_Timer_eq)
  show "format_0_3f (Finite s m e) =
        (if s then ''-'' else []) @ str_nat (thousandths m e div 1000) @ ''.''
          @ [digit_char (thousandths m e div 100 mod 10),
             digit_char (thousandths m e div 10 mod 10),
             digit_char (thousandths m e mod 10)]"
    by (simp add: three_decimals_def str_sign_def)
  show "thousandths m e = m * 1000 * 2 ^ nat e" if "0 \<le> e"
    using that by (simp add: thousandths_def)
  show "2 * \<bar>int (thousandths m e) * 2 ^ nat (- e) - int (m * 1000)\<bar> \<le> 2 ^ nat (- e)" if "e < 0"
    using thousandths_nearest(1) [OF that] .
  show "even (thousandths m e)"
    if "e < 0" and "2 * \<bar>int (thousandths m e) * 2 ^ nat (- e) - int (m * 1000)\<bar> = 2 ^ nat (- e)"
    using thousandths_nearest(2) [OF that(1)] that(2) by blast
  show "\<bar>10000 * 6949954944958149 - 123456 * 2 ^ 49\<bar> \<le> (5000 :: int)"
    by simp
  show "format_0_3f (Finite False 6949954944958149 (- 49)) = ''12.346''"
    by (simp add: three_decimals_def str_sign_def thousandths_def shift_round_even_def Let_def
        str_nat.simps digit_char_def)
qed

theorem Timer_elapsed_on_release_witness:
  "thousandths 3 1 = 6000
   \<and> format_0_3f (Finite False 3 1) = ''6.000''
   \<and> 2 * \<bar>int (thousandths 1000 (- 7)) * 2 ^ nat (- (- 7)) - int (1000 * 1000)\<bar> = 2 ^ nat (- (- 7))
   \<and> thousandths 1000 (- 7) = 7812
   \<and> format_0_3f (Finite True 1000 (- 7)) = ''-7.812''
   \<and> with_Timer (Finite False 1700000000 0) (Finite False 217600000001 (- 7))
        (\<lambda>t. Inl (Raised ''failed'') :: string exn + unit)
      = (Inl (Raised ''failed''),
         \<lparr>start = Some (Finite False 1700000000 0), end_time = Some (Finite False 217600000001 (- 7)),
          elapsed_in_milli = Some (Finite False 1000 (- 7)),
          elapsed_in_milli_as_str = Some ''7.812''\<rparr>)"
  using Timer_elapsed_on_release [of "Finite False 1700000000 0" "Finite False 217600000001 (- 7)"
      "\<lambda>t. Inl (Raised ''failed'') :: string exn + unit" False 3 1]
    Timer_elapsed_on_release [of "Finite False 1700000000 0" "Finite False 217600000001 (- 7)"
      "\<lambda>t. Inl (Raised ''failed'') :: string exn + unit" True 1000 "- 7"]
  by (simp add: with_Timer_eq three_decimals_def str_sign_def thousandths_def shift_round_even_def
      Let_def str_nat.simps digit_char_def round_double_def signed_def bitlen.simps)

text \<open>
  C8, as stated, fails where the elapsed time lies halfway between two thousandths. With
  the clock at 1700000000.0 at enter and at 1700000000.0078125 at exit, the difference and
  its product by 1000 are exact, \<open>elapsed_in_milli\<close> is 7.8125 and the string is
  \<^verbatim>\<open>7.812\<close>, where rounding the tie away from zero gives \<^verbatim>\<open>7.813\<close>.
\<close>

theorem Timer_rounds_tie_to_even:
  "elapsed_in_milli (snd (with_Timer (Finite False 1700000000 0) (Finite False 217600000001 (- 7))
      (\<lambda>t. Inr () :: string exn + unit))) = Some (Finite False 1000 (- 7))
   \<and> 1000 * 16 = (125 :: int) * 2 ^ 7
   \<and> elapsed_in_milli_as_str (snd (with_Timer (Finite False 1700000000 0)
        (Finite False 217600000001 (- 7)) (\<lambda>t. Inr () :: string exn + unit))) = Some ''7.812''
   \<and> str_sign False @ three_decimals (thousandths_half_up 1000 (- 7)) = ''7.813''"
  by (simp add: with_Timer_eq three_decimals_def str_sign_def thousandths_def shift_round_even_def
      thousandths_half_up_def Let_def str_nat.simps digit_char_def round_double_def signed_def
      bitlen.simps)

end
